theory Spec2Isabelle
  imports Complex_Main "HOL-Library.Log_Nat"
begin

section \<open>The users table\<close>

text \<open>
  One row of the table \<^verbatim>\<open>users\<close> that \<^verbatim>\<open>createSchema\<close> declares. Nullable text
  columns are options. The three boolean columns are only ever read through a truthiness
  test (\<^verbatim>\<open>!user.email_verified\<close>, \<^verbatim>\<open>user.otp_verified\<close>), where SQL NULL behaves as
  \<open>False\<close>, so they are plain booleans. \<^verbatim>\<open>login_records\<close> is the JSON array of the column:
  its default is the empty array, and the handlers write nothing but arrays there. Times
  are milliseconds.
\<close>

record login_record =
  action :: string
  time :: nat

record details =
  dob :: "string option"
  address :: "string option"
  gender :: "string option"
  nationality :: "string option"
  aadhaar :: "string option"
  passport :: "string option"
  pan_card :: "string option"

record user =
  user_id :: string
  name :: "string option"
  email :: string
  phone :: "string option"
  user_type :: "string option"
  council_id :: "string option"
  otp :: "string option"
  otp_verified :: bool
  email_verified :: bool
  approved_by_admin :: bool
  created_at :: nat
  last_login_at :: "nat option"
  login_records :: "login_record list"
  personal :: details

text \<open>A message handed to \<^verbatim>\<open>sendEmail(to, subject, html)\<close>: the recipient, the subject
  and the one-time code the body carries (if any). The recipient is the \<^verbatim>\<open>email\<close> field
  of the request as the handler holds it, \<open>None\<close> when the body has none.\<close>

record mail =
  rcpt :: "string option"
  subject :: string
  code :: "string option"

text \<open>What a request can change: the table and the messages the transporter accepted.\<close>

record world =
  users :: "user list"
  outbox :: "mail list"

section \<open>The collaborators of one request\<close>

text \<open>
  Everything a handler obtains from outside during one request: whether the repository
  answers reads and writes, whether \<^verbatim>\<open>transporter.sendMail\<close> resolves, the value of
  \<^verbatim>\<open>Math.random()\<close>, the successive readings of the clock (\<^verbatim>\<open>new Date()\<close>), the
  identifier \<^verbatim>\<open>gen_random_uuid()\<close> draws for a new row, and \<^verbatim>\<open>JWT_SECRET\<close>
  (\<open>None\<close> when the variable is not set).
\<close>

record env =
  read_ok :: bool
  write_ok :: bool
  mail_ok :: bool
  random :: rat
  clock :: "nat \<Rightarrow> nat"
  fresh_id :: string
  jwt_secret :: "string option"

datatype repo_error = Unavailable | NoRows | MultipleRows | NotNullViolation | UniqueViolation

text \<open>\<^verbatim>\<open>.select(...).eq(...).single()\<close>: the row when exactly one row passes the
  filters, an error otherwise.\<close>

definition select_single :: "env \<Rightarrow> user list \<Rightarrow> (user \<Rightarrow> bool) \<Rightarrow> repo_error + user" where
  "select_single en tbl p =
     (if \<not> read_ok en then Inl Unavailable
      else case filter p tbl of
             [] \<Rightarrow> Inl NoRows
           | [u] \<Rightarrow> Inr u
           | _ \<Rightarrow> Inl MultipleRows)"

text \<open>\<^verbatim>\<open>.update(changes).eq("email", e)\<close>: every row with that email is changed; a
  failed write changes nothing and reports an error.\<close>

definition update_email :: "env \<Rightarrow> user list \<Rightarrow> string \<Rightarrow> (user \<Rightarrow> user) \<Rightarrow> repo_error option \<times> user list" where
  "update_email en tbl e f =
     (if \<not> write_ok en then (Some Unavailable, tbl)
      else (None, map (\<lambda>u. if email u = e then f u else u) tbl))"

text \<open>The body of \<^verbatim>\<open>POST /register\<close>; \<open>None\<close> is a field the body does not have.\<close>

record register_body =
  name_in :: "string option"
  email_in :: "string option"
  phone_in :: "string option"
  council_id_in :: "string option"
  user_type_in :: "string option"
  personal_in :: details

text \<open>The row \<^verbatim>\<open>POST /register\<close> inserts. The handler names thirteen columns in the
  object it inserts, \<^verbatim>\<open>user_type\<close> among them: each takes the value of the body, NULL when
  the body has none (so the default \<^verbatim>\<open>'intern'\<close> of the schema is not used). The columns
  the handler does not name take the defaults of the schema.\<close>

definition new_row :: "env \<Rightarrow> register_body \<Rightarrow> string \<Rightarrow> string \<Rightarrow> user" where
  "new_row en b e c =
     \<lparr>user_id = fresh_id en, name = name_in b, email = e, phone = phone_in b,
      user_type = user_type_in b,
      council_id = council_id_in b, otp = Some c,
      otp_verified = False, email_verified = False, approved_by_admin = False,
      created_at = clock en 0, last_login_at = None, login_records = [],
      personal = personal_in b\<rparr>"

text \<open>\<^verbatim>\<open>.insert([row])\<close> under the constraints of the schema: \<^verbatim>\<open>email\<close> is
  \<^verbatim>\<open>UNIQUE NOT NULL\<close> and \<^verbatim>\<open>id\<close> is the primary key.\<close>

definition insert_user :: "env \<Rightarrow> user list \<Rightarrow> register_body \<Rightarrow> string \<Rightarrow> repo_error + user list" where
  "insert_user en tbl b c =
     (if \<not> write_ok en then Inl Unavailable
      else case email_in b of
             None \<Rightarrow> Inl NotNullViolation
           | Some e \<Rightarrow>
               if e \<in> set (map email tbl) \<or> fresh_id en \<in> set (map user_id tbl)
               then Inl UniqueViolation
               else Inr (tbl @ [new_row en b e c]))"

text \<open>\<^verbatim>\<open>sendEmail\<close>: the message is delivered to the transporter, or the call throws.\<close>

definition sendEmail :: "env \<Rightarrow> world \<Rightarrow> mail \<Rightarrow> world option" where
  "sendEmail en w m = (if mail_ok en then Some (w\<lparr>outbox := outbox w @ [m]\<rparr>) else None)"

section \<open>One-time codes\<close>

text \<open>
  \<^verbatim>\<open>Math.floor(100000 + Math.random() * 900000).toString()\<close>. The product and the sum
  are binary64 operations: the exact result rounded to the nearest binary64 number, ties
  to even (\<open>fl64\<close>). Subnormal numbers are included; overflow to infinity is left out, all
  results here being far below the threshold.
\<close>

definition pow2 :: "int \<Rightarrow> rat" where
  "pow2 k = (if 0 \<le> k then 2 ^ nat k else 1 / 2 ^ nat (- k))"

text \<open>The binary exponent of a positive number: \<open>pow2 (binade x) \<le> x < pow2 (binade x + 1)\<close>.\<close>

definition binade :: "rat \<Rightarrow> int" where
  "binade x =
     (if 1 \<le> x then int (floorlog 2 (nat \<lfloor>x\<rfloor>)) - 1
      else - int (floorlog 2 (nat \<lceil>1 / x\<rceil> - 1)))"

definition rne :: "rat \<Rightarrow> int" where
  "rne q =
     (let f = \<lfloor>q\<rfloor>; d = q - of_int f
      in if d < 1 / 2 then f
         else if 1 / 2 < d then f + 1
         else if even f then f else f + 1)"

definition ulp64 :: "rat \<Rightarrow> rat" where
  "ulp64 x = pow2 (max (binade x) (- 1022) - 52)"

text \<open>Rounding a positive number: the nearest multiple of the spacing of its binade.\<close>

definition fl64_mag :: "rat \<Rightarrow> rat" where
  "fl64_mag x = of_int (rne (x / ulp64 x)) * ulp64 x"

definition fl64 :: "rat \<Rightarrow> rat" where
  "fl64 x = (if x = 0 then 0 else if 0 < x then fl64_mag x else - fl64_mag (- x))"

text \<open>A binary64 number is one that rounding leaves alone. \<^verbatim>\<open>Math.random()\<close> returns a
  binary64 number \<open>r\<close> with \<open>0 \<le> r < 1\<close>.\<close>

definition is_binary64 :: "rat \<Rightarrow> bool" where
  "is_binary64 x = (fl64 x = x)"

text \<open>\<^verbatim>\<open>toString()\<close> of an integral number below \<open>10^21\<close>: its decimal digits.\<close>

definition digit_char :: "nat \<Rightarrow> char" where
  "digit_char d = ''0123456789'' ! d"

fun digits10 :: "nat \<Rightarrow> string" where
  "digits10 n = (if n < 10 then [digit_char n] else digits10 (n div 10) @ [digit_char (n mod 10)])"

declare digits10.simps [simp del]

definition toString :: "int \<Rightarrow> string" where
  "toString i = (if i < 0 then CHR ''-'' # digits10 (nat (- i)) else digits10 (nat i))"

definition otp_number :: "rat \<Rightarrow> int" where
  "otp_number r = \<lfloor>fl64 (100000 + fl64 (r * 900000))\<rfloor>"

definition generate_otp :: "rat \<Rightarrow> string" where
  "generate_otp r = toString (otp_number r)"

text \<open>What is asked of a code: six characters, each a decimal digit, that read as a number
  from 100000 to 999999.\<close>

definition digit_value :: "char \<Rightarrow> nat" where
  "digit_value c = of_char c - 48"

definition decimal_value :: "string \<Rightarrow> nat" where
  "decimal_value s = foldl (\<lambda>a c. 10 * a + digit_value c) 0 s"

definition six_digit :: "string \<Rightarrow> bool" where
  "six_digit s = (length s = 6 \<and> set s \<subseteq> set ''0123456789'' \<and>
     100000 \<le> decimal_value s \<and> decimal_value s \<le> 999999)"

section \<open>Session tokens\<close>

text \<open>
  \<^verbatim>\<open>jwt.sign(payload, secret, { expiresIn })\<close>, kept abstract: the token is its signed
  content. The signer stamps the issue time in seconds (\<open>iat\<close>) and the expiry
  \<open>exp = iat + expiresIn\<close>; \<^verbatim>\<open>"1h"\<close> is \<open>3600\<close> seconds. With no secret, or with the
  empty string as the secret, the signer throws (\<open>None\<close>).
\<close>

record token =
  claim_id :: string
  claim_email :: string
  claim_user_type :: "string option"
  iat :: nat
  exp :: nat
  signed_with :: string

definition one_hour :: nat where
  "one_hour = 3600"

definition jwt_sign ::
  "string \<Rightarrow> string \<Rightarrow> string option \<Rightarrow> string option \<Rightarrow> nat \<Rightarrow> nat \<Rightarrow> token option" where
  "jwt_sign i e t secret expiresIn now =
     (case secret of
        None \<Rightarrow> None
      | Some k \<Rightarrow>
          if k = [] then None
          else Some \<lparr>claim_id = i, claim_email = e, claim_user_type = t,
                 iat = now div 1000, exp = now div 1000 + expiresIn, signed_with = k\<rparr>)"

section \<open>The handlers\<close>

text \<open>
  A handler answers with a status and a JSON body, or its promise is rejected because
  \<^verbatim>\<open>sendEmail\<close> or \<^verbatim>\<open>jwt.sign\<close> threw outside a \<^verbatim>\<open>try\<close> (\<open>Rejected\<close>: the handler
  sends no answer of its own). \<^verbatim>\<open>res.json\<close> without \<^verbatim>\<open>res.status\<close> is status 200.
\<close>

datatype body =
    ErrorText string
  | ErrorRepo repo_error
  | MessageText string
  | LoginData string "string option" string "string option" token

datatype reply = Reply nat body | Rejected

text \<open>\<^verbatim>\<open>app.post("/register")\<close>\<close>

definition register :: "env \<Rightarrow> world \<Rightarrow> register_body \<Rightarrow> world \<times> reply" where
  "register en w b =
     (let c = generate_otp (random en)
      in case insert_user en (users w) b c of
           Inl err \<Rightarrow> (w, Reply 400 (ErrorRepo err))
         | Inr tbl \<Rightarrow>
             (let w1 = w\<lparr>users := tbl\<rparr>
              in case sendEmail en w1
                     \<lparr>rcpt = email_in b, subject = ''Verify Your Registration'', code = Some c\<rparr> of
                   None \<Rightarrow> (w1, Rejected)
                 | Some w2 \<Rightarrow>
                     (w2, Reply 200 (MessageText ''Registered successfully. OTP sent to email.''))))"

text \<open>\<^verbatim>\<open>app.post("/verify-otp")\<close>. The result of the update is not looked at.\<close>

definition verify_otp :: "env \<Rightarrow> world \<Rightarrow> string \<Rightarrow> string \<Rightarrow> world \<times> reply" where
  "verify_otp en w e c =
     (case select_single en (users w) (\<lambda>u. email u = e \<and> otp u = Some c) of
        Inl err \<Rightarrow> (w, Reply 400 (ErrorText ''Invalid OTP''))
      | Inr data \<Rightarrow>
          (w\<lparr>users := snd (update_email en (users w) e
                 (\<lambda>u. u\<lparr>otp_verified := True, email_verified := True\<rparr>))\<rparr>,
           Reply 200 (MessageText ''Email verified successfully.'')))"

text \<open>\<^verbatim>\<open>app.post("/login")\<close>\<close>

definition login :: "env \<Rightarrow> world \<Rightarrow> string \<Rightarrow> world \<times> reply" where
  "login en w e =
     (case select_single en (users w) (\<lambda>u. email u = e) of
        Inl err \<Rightarrow> (w, Reply 400 (ErrorText ''User not found''))
      | Inr usr \<Rightarrow>
          if \<not> email_verified usr then (w, Reply 403 (ErrorText ''Email not verified''))
          else if \<not> approved_by_admin usr then (w, Reply 403 (ErrorText ''Not approved by admin''))
          else
            (let c = generate_otp (random en);
                 w1 = w\<lparr>users := snd (update_email en (users w) e (\<lambda>u. u\<lparr>otp := Some c\<rparr>))\<rparr>
             in case sendEmail en w1 \<lparr>rcpt = Some e, subject = ''Login OTP'', code = Some c\<rparr> of
                  None \<Rightarrow> (w1, Rejected)
                | Some w2 \<Rightarrow> (w2, Reply 200 (MessageText ''OTP sent for login.''))))"

text \<open>\<^verbatim>\<open>app.post("/verify-login")\<close>. The token is signed first (clock reading 0), outside
  any \<^verbatim>\<open>try\<close>: when the signer throws, the handler is rejected before the update and the
  mail. The update reads the clock twice more, for \<^verbatim>\<open>last_login_at\<close> and for the new
  record, and writes the record list of the row that was read with the new record at its
  end. The result of the update is not looked at.\<close>

definition verify_login :: "env \<Rightarrow> world \<Rightarrow> string \<Rightarrow> string \<Rightarrow> world \<times> reply" where
  "verify_login en w e c =
     (case select_single en (users w) (\<lambda>u. email u = e \<and> otp u = Some c) of
        Inl err \<Rightarrow> (w, Reply 400 (ErrorText ''Invalid OTP''))
      | Inr usr \<Rightarrow>
          (case jwt_sign (user_id usr) (email usr) (user_type usr) (jwt_secret en)
                  one_hour (clock en 0) of
             None \<Rightarrow> (w, Rejected)
           | Some tok \<Rightarrow>
               (let w1 = w\<lparr>users := snd (update_email en (users w) e
                          (\<lambda>u. u\<lparr>last_login_at := Some (clock en 1),
                                 login_records := login_records usr @
                                   [\<lparr>action = ''login'', time = clock en 2\<rparr>]\<rparr>))\<rparr>
                in case sendEmail en w1
                       \<lparr>rcpt = Some e, subject = ''Login Successful'', code = None\<rparr> of
                     None \<Rightarrow> (w1, Rejected)
                   | Some w2 \<Rightarrow>
                       (w2, Reply 200
                          (LoginData (user_id usr) (name usr) (email usr) (user_type usr) tok)))))"

text \<open>\<^verbatim>\<open>app.post("/logout")\<close>. The result of the update is not looked at.\<close>

definition logout :: "env \<Rightarrow> world \<Rightarrow> string \<Rightarrow> world \<times> reply" where
  "logout en w e =
     (case select_single en (users w) (\<lambda>u. email u = e) of
        Inl err \<Rightarrow> (w, Reply 400 (ErrorText ''User not found''))
      | Inr usr \<Rightarrow>
          (let w1 = w\<lparr>users := snd (update_email en (users w) e
                     (\<lambda>u. u\<lparr>login_records := login_records usr @
                              [\<lparr>action = ''logout'', time = clock en 0\<rparr>]\<rparr>))\<rparr>
           in case sendEmail en w1 \<lparr>rcpt = Some e, subject = ''Logout Notification'', code = None\<rparr> of
                None \<Rightarrow> (w1, Rejected)
              | Some w2 \<Rightarrow> (w2, Reply 200 (MessageText ''Logged out successfully.''))))"

text \<open>\<^verbatim>\<open>app.post("/resend-otp")\<close>. \<^verbatim>\<open>!email\<close> holds of a missing field and of the
  empty string. This handler looks at the result of the update and catches a failed send.\<close>

definition resend_otp :: "env \<Rightarrow> world \<Rightarrow> string option \<Rightarrow> world \<times> reply" where
  "resend_otp en w eo =
     (case eo of
        None \<Rightarrow> (w, Reply 400 (ErrorText ''Email is required''))
      | Some e \<Rightarrow>
          if e = [] then (w, Reply 400 (ErrorText ''Email is required''))
          else case select_single en (users w) (\<lambda>u. email u = e) of
                 Inl fetchError \<Rightarrow> (w, Reply 404 (ErrorText ''User with this email not found''))
               | Inr usr \<Rightarrow>
                   if otp_verified usr then (w, Reply 400 (ErrorText ''Email already verified''))
                   else
                     (let c = generate_otp (random en);
                          upd = update_email en (users w) e (\<lambda>u. u\<lparr>otp := Some c\<rparr>);
                          w1 = w\<lparr>users := snd upd\<rparr>
                      in case fst upd of
                           Some updateError \<Rightarrow> (w1, Reply 500 (ErrorText ''Failed to update OTP''))
                         | None \<Rightarrow>
                             (case sendEmail en w1
                                  \<lparr>rcpt = eo, subject = ''Resend OTP - Email Verification'',
                                   code = Some c\<rparr> of
                                None \<Rightarrow> (w1, Reply 500 (ErrorText ''Failed to send OTP email''))
                              | Some w2 \<Rightarrow> (w2, Reply 200 (MessageText ''OTP resent successfully'')))))"

text \<open>The account an email names, and the constraint \<^verbatim>\<open>email TEXT UNIQUE\<close>.\<close>

definition account :: "world \<Rightarrow> string \<Rightarrow> user option" where
  "account w e = find (\<lambda>u. email u = e) (users w)"

definition unique_emails :: "world \<Rightarrow> bool" where
  "unique_emails w = distinct (map email (users w))"

text \<open>A request that took world \<open>w\<close> to world \<open>w'\<close> issued no code but \<open>c\<close>: every stored
  code is \<open>c\<close> or was stored before, and every message of the outbox carries \<open>c\<close> or was
  there before.\<close>

definition issues_only :: "string \<Rightarrow> world \<Rightarrow> world \<Rightarrow> bool" where
  "issues_only c w w' =
     ((\<forall>u \<in> set (users w'). otp u = Some c \<or> otp u \<in> otp ` set (users w)) \<and>
      (\<forall>m \<in> set (outbox w'). code m = Some c \<or> m \<in> set (outbox w)))"

section \<open>Sample data\<close>

text \<open>Concrete collaborators, rows and messages, used to run the handlers.\<close>

definition no_details :: details where
  "no_details = \<lparr>dob = None, address = None, gender = None, nationality = None,
     aadhaar = None, passport = None, pan_card = None\<rparr>"

definition env0 :: env where
  "env0 = \<lparr>read_ok = True, write_ok = True, mail_ok = True, random = 1 / 2,
     clock = (\<lambda>k. 1700000000000 + k), fresh_id = ''id-2'', jwt_secret = Some ''secret''\<rparr>"

definition alice :: user where
  "alice = \<lparr>user_id = ''id-1'', name = Some ''Alice'', email = ''a@x.com'', phone = None,
     user_type = Some ''intern'', council_id = None, otp = Some ''123456'',
     otp_verified = False, email_verified = False, approved_by_admin = False,
     created_at = 0, last_login_at = None, login_records = [], personal = no_details\<rparr>"

definition world_of :: "user list \<Rightarrow> world" where
  "world_of tbl = \<lparr>users = tbl, outbox = []\<rparr>"


definition logged_in_alice :: user where
  "logged_in_alice = alice\<lparr>last_login_at := Some 1700000000001,
     login_records := [\<lparr>action = ''login'', time = 1700000000002\<rparr>]\<rparr>"

definition login_mail :: mail where
  "login_mail = \<lparr>rcpt = Some ''a@x.com'', subject = ''Login Successful'', code = None\<rparr>"

definition alice_token :: token where
  "alice_token = \<lparr>claim_id = ''id-1'', claim_email = ''a@x.com'', claim_user_type = Some ''intern'',
     iat = 1700000000, exp = 1700003600, signed_with = ''secret''\<rparr>"

definition logout_mail :: mail where
  "logout_mail = \<lparr>rcpt = Some ''a@x.com'', subject = ''Logout Notification'', code = None\<rparr>"

definition logged_out_alice :: user where
  "logged_out_alice = logged_in_alice\<lparr>login_records :=
     [\<lparr>action = ''login'', time = 1700000000002\<rparr>, \<lparr>action = ''logout'', time = 1700000000000\<rparr>]\<rparr>"


definition malformed_body :: register_body where
  "malformed_body = \<lparr>name_in = Some ''Bob'', email_in = Some ''not-an-email'', phone_in = None,
     council_id_in = None, user_type_in = None, personal_in = no_details\<rparr>"



definition bob :: user where
  "bob = \<lparr>user_id = ''id-2'', name = Some ''Bob'', email = ''not-an-email'', phone = None,
     user_type = None, council_id = None, otp = Some ''550000'',
     otp_verified = False, email_verified = False, approved_by_admin = False,
     created_at = 1700000000000, last_login_at = None, login_records = [],
     personal = no_details\<rparr>"




definition env_mail_down :: env where
  "env_mail_down = env0\<lparr>mail_ok := False\<rparr>"

definition env_write_down :: env where
  "env_write_down = env0\<lparr>write_ok := False\<rparr>"

definition top_draw :: rat where
  "top_draw = 1 - 1 / 2 ^ 53"

definition env_top :: env where
  "env_top = env0\<lparr>random := top_draw\<rparr>"

definition veteran :: user where
  "veteran = alice\<lparr>last_login_at := Some 1600000000000,
     login_records := [\<lparr>action = ''login'', time = 1600000000000\<rparr>,
                       \<lparr>action = ''logout'', time = 1600000100000\<rparr>]\<rparr>"
section \<open>Facts about the table\<close>

lemma filter_unique:
  "distinct (map f xs) \<Longrightarrow> x \<in> set xs \<Longrightarrow> filter (\<lambda>y. f y = f x) xs = [x]"
proof (induction xs)
  case Nil
  then show ?case by simp
next
  case (Cons a xs)
  show ?case
  proof (cases "a = x")
    case True
    have "f x \<notin> f ` set xs" using Cons.prems(1) True by simp
    then have "\<forall>y\<in>set xs. f y \<noteq> f x" by (metis image_eqI)
    then have "filter (\<lambda>y. f y = f x) xs = []" by (simp add: filter_empty_conv)
    then show ?thesis using True by simp
  next
    case False
    then have xin: "x \<in> set xs" using Cons.prems(2) by simp
    have "f a \<notin> f ` set xs" using Cons.prems(1) by simp
    then have "f a \<noteq> f x" using xin by (metis image_eqI)
    then show ?thesis using Cons.IH Cons.prems(1) xin by simp
  qed
qed

lemma find_unique:
  "distinct (map f xs) \<Longrightarrow> x \<in> set xs \<Longrightarrow> find (\<lambda>y. f y = f x) xs = Some x"
  by (induction xs) force+

lemma find_in_set: "find p xs = Some x \<Longrightarrow> x \<in> set xs \<and> p x"
  by (induction xs) (auto split: if_splits)

lemma find_none: "find p xs = None \<Longrightarrow> filter p xs = []"
  by (induction xs) (auto split: if_splits)

lemma account_of_member:
  "unique_emails w \<Longrightarrow> u \<in> set (users w) \<Longrightarrow> account w (email u) = Some u"
  by (simp add: unique_emails_def account_def find_unique)

lemma account_member:
  "account w e = Some u \<Longrightarrow> u \<in> set (users w) \<and> email u = e"
  using find_in_set [of "\<lambda>u. email u = e" "users w" u] by (simp add: account_def)

lemma select_single_one:
  "read_ok en \<Longrightarrow> filter p tbl = [u] \<Longrightarrow> select_single en tbl p = Inr u"
  by (simp add: select_single_def)

lemma select_single_none:
  "filter p tbl = [] \<Longrightarrow> \<exists>err. select_single en tbl p = Inl err"
  by (simp add: select_single_def)

lemma select_single_Inr:
  "select_single en tbl p = Inr u \<Longrightarrow> read_ok en \<and> filter p tbl = [u]"
  by (auto simp: select_single_def split: if_splits list.splits)

lemma filter_singleton_member:
  "filter p xs = [x] \<Longrightarrow> x \<in> set xs \<and> p x"
proof -
  assume a: "filter p xs = [x]"
  have "x \<in> set (filter p xs)" unfolding a by simp
  then show ?thesis by simp
qed

lemma single_by_email:
  assumes "read_ok en" "unique_emails w" "account w e = Some u"
  shows "select_single en (users w) (\<lambda>v. email v = e) = Inr u"
proof -
  have m: "u \<in> set (users w)" "email u = e" using assms(3) account_member by blast+
  have "filter (\<lambda>v. email v = email u) (users w) = [u]"
    using filter_unique [of email "users w" u] assms(2) m(1) by (simp add: unique_emails_def)
  then show ?thesis using assms(1) m(2) select_single_one by blast
qed

lemma filter_by_email_otp:
  assumes "unique_emails w" "account w e = Some u"
  shows "filter (\<lambda>v. email v = e \<and> otp v = Some c) (users w) = (if otp u = Some c then [u] else [])"
proof -
  have m: "u \<in> set (users w)" "email u = e" using assms(2) account_member by blast+
  have one: "filter (\<lambda>v. email v = e) (users w) = [u]"
    using filter_unique [of email "users w" u] assms(1) m by (auto simp: unique_emails_def)
  have "filter (\<lambda>v. email v = e \<and> otp v = Some c) (users w)
          = filter (\<lambda>v. otp v = Some c) (filter (\<lambda>v. email v = e) (users w))"
    by (simp add: conj_commute)
  then show ?thesis using one by simp
qed

lemma no_account_filter:
  "account w e = None \<Longrightarrow> filter (\<lambda>v. email v = e \<and> q v) (users w) = []"
proof -
  assume "account w e = None"
  then have "filter (\<lambda>v. email v = e) (users w) = []"
    using find_none [of "\<lambda>v. email v = e" "users w"] by (simp add: account_def)
  then show ?thesis by (auto simp: filter_empty_conv)
qed

lemma account_after_update:
  assumes "\<And>u. email (f u) = email u"
  shows "account (w\<lparr>users := map (\<lambda>u. if email u = e then f u else u) (users w)\<rparr>) e'
           = (if e' = e then map_option f (account w e) else account w e')"
proof -
  have "find (\<lambda>u. email u = e') (map (\<lambda>u. if email u = e then f u else u) tbl)
          = (if e' = e then map_option f (find (\<lambda>u. email u = e) tbl)
             else find (\<lambda>u. email u = e') tbl)" for tbl
    by (induction tbl) (auto simp: assms)
  then show ?thesis by (simp add: account_def)
qed

lemma account_outbox [simp]: "account (w\<lparr>outbox := ob\<rparr>) e = account w e"
  by (simp add: account_def)

lemma verify_otp_ok_D:
  assumes "verify_otp en w e c = (w', Reply 200 b)"
  shows "\<exists>data. read_ok en \<and> filter (\<lambda>v. email v = e \<and> otp v = Some c) (users w) = [data] \<and>
           w' = w\<lparr>users := snd (update_email en (users w) e
                    (\<lambda>u. u\<lparr>otp_verified := True, email_verified := True\<rparr>))\<rparr>"
proof (cases "select_single en (users w) (\<lambda>u. email u = e \<and> otp u = Some c)")
  case (Inl err)
  then show ?thesis using assms by (simp add: verify_otp_def)
next
  case (Inr data)
  then show ?thesis using assms select_single_Inr [OF Inr] by (auto simp: verify_otp_def)
qed

lemma verify_login_ok_D:
  assumes "verify_login en w e c = (w', Reply 200 b)"
  shows "\<exists>usr tok. read_ok en \<and> mail_ok en \<and>
           filter (\<lambda>v. email v = e \<and> otp v = Some c) (users w) = [usr] \<and>
           jwt_sign (user_id usr) (email usr) (user_type usr) (jwt_secret en) one_hour (clock en 0)
             = Some tok \<and>
           b = LoginData (user_id usr) (name usr) (email usr) (user_type usr) tok \<and>
           users w' = snd (update_email en (users w) e
                    (\<lambda>u. u\<lparr>last_login_at := Some (clock en 1),
                            login_records := login_records usr @
                              [\<lparr>action = ''login'', time = clock en 2\<rparr>]\<rparr>))"
proof (cases "select_single en (users w) (\<lambda>u. email u = e \<and> otp u = Some c)")
  case (Inl err)
  then show ?thesis using assms by (simp add: verify_login_def)
next
  case (Inr usr)
  show ?thesis
  proof (cases "jwt_sign (user_id usr) (email usr) (user_type usr) (jwt_secret en) one_hour (clock en 0)")
    case None
    then show ?thesis using assms Inr by (simp add: verify_login_def)
  next
    case (Some tok)
    then show ?thesis using assms Inr select_single_Inr [OF Inr]
      by (auto simp: verify_login_def sendEmail_def Let_def split: if_splits)
  qed
qed

lemma logout_ok_D:
  assumes "logout en w e = (w', Reply 200 b)"
  shows "\<exists>usr. read_ok en \<and> mail_ok en \<and>
           filter (\<lambda>v. email v = e) (users w) = [usr] \<and>
           users w' = snd (update_email en (users w) e
                    (\<lambda>u. u\<lparr>login_records := login_records usr @
                              [\<lparr>action = ''logout'', time = clock en 0\<rparr>]\<rparr>))"
proof (cases "select_single en (users w) (\<lambda>u. email u = e)")
  case (Inl err)
  then show ?thesis using assms by (simp add: logout_def)
next
  case (Inr usr)
  then show ?thesis using assms select_single_Inr [OF Inr]
    by (auto simp: logout_def sendEmail_def Let_def split: if_splits)
qed

lemma account_users_cong: "users w1 = users w2 \<Longrightarrow> account w1 e = account w2 e"
  by (simp add: account_def)

lemma account_after_write:
  assumes "\<And>u. email (f u) = email u" "write_ok en"
    "users w' = snd (update_email en (users w) e f)"
  shows "account w' e' = (if e' = e then map_option f (account w e) else account w e')"
proof -
  have "users w' = users (w\<lparr>users := map (\<lambda>u. if email u = e then f u else u) (users w)\<rparr>)"
    using assms(2,3) by (simp add: update_email_def)
  then have "account w' e' = account (w\<lparr>users := map (\<lambda>u. if email u = e then f u else u) (users w)\<rparr>) e'"
    by (rule account_users_cong)
  then show ?thesis using account_after_update [where f = f and w = w and e = e and e' = e'] assms(1) by simp
qed

text \<open>What the handlers write when the update reaches the table.\<close>

lemma verify_otp_when_written:
  assumes "write_ok en" "unique_emails w" "verify_otp en w e c = (w', Reply 200 b)"
  shows "(case account w e of
            None \<Rightarrow> False
          | Some u \<Rightarrow> otp u = Some c \<and>
              account w' e = Some (u\<lparr>otp_verified := True, email_verified := True\<rparr>)) \<and>
         map_option otp (account w' e) = Some (Some c) \<and>
         map_option email_verified (account w' e) = Some True \<and>
         map_option otp_verified (account w' e) = Some True \<and>
         (\<forall>en'. read_ok en' \<longrightarrow>
            snd (verify_otp en' w' e c) = Reply 200 (MessageText ''Email verified successfully.''))"
proof -
  obtain data where d: "read_ok en"
      "filter (\<lambda>v. email v = e \<and> otp v = Some c) (users w) = [data]"
      "w' = w\<lparr>users := snd (update_email en (users w) e
                (\<lambda>u. u\<lparr>otp_verified := True, email_verified := True\<rparr>))\<rparr>"
    using verify_otp_ok_D [OF assms(3)] by blast
  have mem: "data \<in> set (users w)" "email data = e" "otp data = Some c"
    using filter_singleton_member [OF d(2)] by simp_all
  have acc: "account w e = Some data"
    using account_of_member [OF assms(2) mem(1)] mem(2) by simp
  have w': "w' = w\<lparr>users := map (\<lambda>u. if email u = e
               then u\<lparr>otp_verified := True, email_verified := True\<rparr> else u) (users w)\<rparr>"
    using d(3) assms(1) by (simp add: update_email_def)
  have acc': "account w' e = Some (data\<lparr>otp_verified := True, email_verified := True\<rparr>)"
    unfolding w' by (subst account_after_update) (simp_all add: acc)
  have again: "filter (\<lambda>v. email v = e \<and> otp v = Some c) (users w')
                 = [data\<lparr>otp_verified := True, email_verified := True\<rparr>]"
  proof -
    have push: "filter (\<lambda>v. email v = e \<and> otp v = Some c) (map (\<lambda>u. if email u = e
               then u\<lparr>otp_verified := True, email_verified := True\<rparr> else u) tbl)
          = map (\<lambda>u. u\<lparr>otp_verified := True, email_verified := True\<rparr>)
              (filter (\<lambda>v. email v = e \<and> otp v = Some c) tbl)" for tbl
      by (induction tbl) auto
    show ?thesis unfolding w' by (simp add: push d(2))
  qed
  have "snd (verify_otp en' w' e c) = Reply 200 (MessageText ''Email verified successfully.'')"
    if "read_ok en'" for en'
    using that again by (simp add: verify_otp_def select_single_def)
  then show ?thesis using acc acc' mem(3) by simp
qed

lemma records_when_written:
  assumes "write_ok en" "unique_emails w" "account w e = Some u"
  shows "(verify_login en w e c = (w', Reply 200 b) \<longrightarrow>
            map_option login_records (account w' e)
              = Some (login_records u @ [\<lparr>action = ''login'', time = clock en 2\<rparr>])) \<and>
         (logout en w e = (w', Reply 200 b) \<longrightarrow>
            map_option login_records (account w' e)
              = Some (login_records u @ [\<lparr>action = ''logout'', time = clock en 0\<rparr>])) \<and>
         (verify_login en w e c = (w', Reply 200 b) \<or> logout en w e = (w', Reply 200 b) \<longrightarrow>
            (\<forall>e'. e' \<noteq> e \<longrightarrow> account w' e' = account w e') \<and>
            map_option (\<lambda>v. length (login_records v)) (account w' e)
              = Some (length (login_records u) + 1) \<and>
            map_option (\<lambda>v. take (length (login_records u)) (login_records v)) (account w' e)
              = Some (login_records u))"
proof -
  have li: "account w' e' = (if e' = e then Some (u\<lparr>last_login_at := Some (clock en 1),
                 login_records := login_records u @ [\<lparr>action = ''login'', time = clock en 2\<rparr>]\<rparr>)
               else account w e')"
    if ok: "verify_login en w e c = (w', Reply 200 b)" for e'
  proof -
    obtain usr where d: "filter (\<lambda>v. email v = e \<and> otp v = Some c) (users w) = [usr]"
      "users w' = snd (update_email en (users w) e
                    (\<lambda>u. u\<lparr>last_login_at := Some (clock en 1),
                            login_records := login_records usr @
                              [\<lparr>action = ''login'', time = clock en 2\<rparr>]\<rparr>))"
      using verify_login_ok_D [OF ok] by blast
    have mem: "usr \<in> set (users w)" "email usr = e"
      using filter_singleton_member [OF d(1)] by simp_all
    have "usr = u" using account_of_member [OF assms(2) mem(1)] mem(2) assms(3) by simp
    then show ?thesis using account_after_write [OF _ assms(1) d(2), of e'] assms(3) by simp
  qed
  have lo: "account w' e' = (if e' = e then Some (u\<lparr>
                 login_records := login_records u @ [\<lparr>action = ''logout'', time = clock en 0\<rparr>]\<rparr>)
               else account w e')"
    if ok: "logout en w e = (w', Reply 200 b)" for e'
  proof -
    obtain usr where d: "filter (\<lambda>v. email v = e) (users w) = [usr]"
      "users w' = snd (update_email en (users w) e
                    (\<lambda>u. u\<lparr>login_records := login_records usr @
                              [\<lparr>action = ''logout'', time = clock en 0\<rparr>]\<rparr>))"
      using logout_ok_D [OF ok] by blast
    have mem: "usr \<in> set (users w)" "email usr = e"
      using filter_singleton_member [OF d(1)] by simp_all
    have "usr = u" using account_of_member [OF assms(2) mem(1)] mem(2) assms(3) by simp
    then show ?thesis using account_after_write [OF _ assms(1) d(2), of e'] assms(3) by simp
  qed
  show ?thesis
  proof (intro conjI impI)
    assume "verify_login en w e c = (w', Reply 200 b)"
    then show "map_option login_records (account w' e)
              = Some (login_records u @ [\<lparr>action = ''login'', time = clock en 2\<rparr>])"
      using li [of e] by simp
  next
    assume "logout en w e = (w', Reply 200 b)"
    then show "map_option login_records (account w' e)
              = Some (login_records u @ [\<lparr>action = ''logout'', time = clock en 0\<rparr>])"
      using lo [of e] by simp
  next
    assume "verify_login en w e c = (w', Reply 200 b) \<or> logout en w e = (w', Reply 200 b)"
    then show "\<forall>e'. e' \<noteq> e \<longrightarrow> account w' e' = account w e'"
      using li lo by auto
  next
    assume "verify_login en w e c = (w', Reply 200 b) \<or> logout en w e = (w', Reply 200 b)"
    then show "map_option (\<lambda>v. length (login_records v)) (account w' e)
              = Some (length (login_records u) + 1)"
      using li [of e] lo [of e] by auto
  next
    assume "verify_login en w e c = (w', Reply 200 b) \<or> logout en w e = (w', Reply 200 b)"
    then show "map_option (\<lambda>v. take (length (login_records u)) (login_records v)) (account w' e)
              = Some (login_records u)"
      using li [of e] lo [of e] by auto
  qed
qed

text \<open>With no usable secret the signer throws: the handler is rejected and nothing is
  written or sent.\<close>

lemma verify_login_no_secret:
  assumes "read_ok en" "unique_emails w" "account w e = Some u" "otp u = Some c"
    "jwt_secret en = None \<or> jwt_secret en = Some []"
  shows "verify_login en w e c = (w, Rejected)"
proof -
  have "select_single en (users w) (\<lambda>v. email v = e \<and> otp v = Some c) = Inr u"
    using filter_by_email_otp [OF assms(2,3), of c] assms(1,4) select_single_one by simp
  then show ?thesis using assms(5) by (auto simp: verify_login_def jwt_sign_def)
qed

lemmas fixture_defs = env0_def alice_def world_of_def no_details_def account_def unique_emails_def

lemma run_verify_login:
  "verify_login env0 (world_of [alice]) ''a@x.com'' ''123456'' =
     (\<lparr>users = [logged_in_alice], outbox = [login_mail]\<rparr>,
      Reply 200 (LoginData ''id-1'' (Some ''Alice'') ''a@x.com'' (Some ''intern'') alice_token))"
  by (simp add: verify_login_def select_single_def update_email_def sendEmail_def jwt_sign_def
      one_hour_def logged_in_alice_def login_mail_def alice_token_def fixture_defs)

lemma run_logout:
  "logout env0 \<lparr>users = [logged_in_alice], outbox = [login_mail]\<rparr> ''a@x.com'' =
     (\<lparr>users = [logged_out_alice], outbox = [login_mail, logout_mail]\<rparr>,
      Reply 200 (MessageText ''Logged out successfully.''))"
  by (simp add: logout_def select_single_def update_email_def sendEmail_def
      logged_in_alice_def logged_out_alice_def logout_mail_def fixture_defs)

text \<open>Running the one-time code generator on a concrete draw.\<close>

lemmas fl_eval = fl64_def fl64_mag_def ulp64_def binade_def pow2_def rne_def compute_floorlog Let_def

lemma otp_number_half: "otp_number (1 / 2) = 550000"
  by (simp add: otp_number_def fl_eval)

lemma generate_otp_half: "generate_otp (1 / 2) = ''550000''"
  by (simp add: generate_otp_def otp_number_half toString_def digits10.simps digit_char_def)


section \<open>Rounding to binary64\<close>

lemma pow2_powi: "pow2 k = 2 powi k"
  by (simp add: pow2_def power_int_def inverse_eq_divide power_one_over)

lemma pow2_pos: "0 < pow2 k"
  by (simp add: pow2_powi)

lemma pow2_add: "pow2 (a + b) = pow2 a * pow2 b"
  by (simp add: pow2_powi power_int_add)

lemma pow2_le: "a \<le> b \<Longrightarrow> pow2 a \<le> pow2 b"
  by (simp add: pow2_powi power_int_increasing)

lemma pow2_less: "a < b \<Longrightarrow> pow2 a < pow2 b"
  by (simp add: pow2_powi power_int_strict_increasing)

lemma pow2_less_D: "pow2 a < pow2 b \<Longrightarrow> a < b"
  using pow2_le [of b a] by (cases "a < b") auto

lemma pow2_nat: "pow2 (int n) = 2 ^ n"
  by (simp add: pow2_def)

lemma pow2_neg_nat: "pow2 (- int n) = 1 / 2 ^ n"
  by (simp add: pow2_powi power_int_minus inverse_eq_divide)

lemma of_nat_le_two_power: "m \<le> 2 ^ L \<Longrightarrow> (of_nat m :: rat) \<le> 2 ^ L"
proof -
  assume "m \<le> 2 ^ L"
  then have "(of_nat m :: rat) \<le> of_nat (2 ^ L)" by (simp only: of_nat_le_iff)
  then show ?thesis by simp
qed

lemma two_power_le_of_nat: "2 ^ L \<le> m \<Longrightarrow> (2::rat) ^ L \<le> of_nat m"
proof -
  assume "2 ^ L \<le> m"
  then have "(of_nat (2 ^ L) :: rat) \<le> of_nat m" by (simp only: of_nat_le_iff)
  then show ?thesis by simp
qed

lemma binade_ge_one:
  assumes "1 \<le> x"
  shows "pow2 (binade x) \<le> x \<and> x < pow2 (binade x + 1)"
proof -
  define n where "n = nat \<lfloor>x\<rfloor>"
  define L where "L = floorlog 2 n"
  have n1: "1 \<le> n" using assms by (simp add: n_def le_nat_iff le_floor_iff)
  have "0 \<le> \<lfloor>x\<rfloor>" using assms by simp
  then have nf: "of_nat n = (of_int \<lfloor>x\<rfloor> :: rat)" by (simp add: n_def)
  have nx: "of_nat n \<le> x" "x < of_nat n + 1"
    unfolding nf using floor_correct [of x] by simp_all
  have fb: "2 ^ (L - 1) \<le> n" "n < 2 ^ L"
    using floorlog_bounds [of n 2] n1 by (simp_all add: L_def)
  have L1: "1 \<le> L" using fb(2) n1 by (cases L) simp_all
  have b: "binade x = int (L - 1)"
    using assms L1 by (simp add: binade_def n_def L_def)
  have lo: "pow2 (int (L - 1)) \<le> x"
  proof -
    have "(2::rat) ^ (L - 1) \<le> of_nat n" using fb(1) by (rule two_power_le_of_nat)
    then have "(2::rat) ^ (L - 1) \<le> x" using nx(1) by linarith
    then show ?thesis by (simp add: pow2_nat)
  qed
  have hi: "x < pow2 (int (L - 1) + 1)"
  proof -
    have "n + 1 \<le> 2 ^ L" using fb(2) by simp
    then have "of_nat (n + 1) \<le> (2::rat) ^ L" by (rule of_nat_le_two_power)
    then have "x < (2::rat) ^ L" using nx(2) by simp
    moreover have "int (L - 1) + 1 = int L" using L1 by simp
    ultimately show ?thesis by (simp add: pow2_nat)
  qed
  show ?thesis using b lo hi by simp
qed

lemma binade_lt_one:
  assumes "0 < x" "x < 1"
  shows "pow2 (binade x) \<le> x \<and> x < pow2 (binade x + 1)"
proof -
  define m where "m = nat \<lceil>1 / x\<rceil>"
  define L where "L = floorlog 2 (m - 1)"
  have inv: "1 < 1 / x" using assms by simp
  have mc: "1 / x \<le> of_nat m" "of_nat m < 1 / x + 1"
  proof -
    have "0 \<le> \<lceil>1 / x\<rceil>" using inv by (simp add: le_ceiling_iff)
    then have "of_nat m = (of_int \<lceil>1 / x\<rceil> :: rat)" by (simp add: m_def)
    then show "1 / x \<le> of_nat m" "of_nat m < 1 / x + 1"
      using ceiling_correct [of "1 / x"] by simp_all
  qed
  have m2: "2 \<le> m"
  proof -
    have "(1::rat) < of_nat m" using inv mc(1) by simp
    then have "1 < m" by simp
    then show ?thesis by simp
  qed
  have fb: "2 ^ (L - 1) \<le> m - 1" "m - 1 < 2 ^ L"
    using floorlog_bounds [of "m - 1" 2] m2 by (simp_all add: L_def)
  have L1: "1 \<le> L" using fb(2) m2 by (cases L) simp_all
  have b: "binade x = - int L"
    using assms by (simp add: binade_def m_def L_def)
  have lo: "pow2 (- int L) \<le> x"
  proof -
    have "m \<le> 2 ^ L" using fb(2) by simp
    then have "of_nat m \<le> (2::rat) ^ L" by (rule of_nat_le_two_power)
    then have "1 / x \<le> 2 ^ L" using mc(1) by linarith
    then have "1 / 2 ^ L \<le> x" using assms(1) by (simp add: field_simps)
    then show ?thesis by (simp add: pow2_neg_nat)
  qed
  have hi: "x < pow2 (- int L + 1)"
  proof -
    have "(2::rat) ^ (L - 1) \<le> of_nat (m - 1)" using fb(1) by (rule two_power_le_of_nat)
    moreover have "of_nat (m - 1) = (of_nat m :: rat) - 1" using m2 by (simp add: of_nat_diff)
    ultimately have "(2::rat) ^ (L - 1) < 1 / x" using mc(2) by linarith
    then have "x < 1 / 2 ^ (L - 1)" using assms(1) by (simp add: field_simps)
    then have "x < pow2 (- int (L - 1))" by (simp only: pow2_neg_nat)
    moreover have "- int L + 1 = - int (L - 1)" using L1 by simp
    ultimately show ?thesis by (simp only:)
  qed
  show ?thesis using b lo hi by simp
qed

lemma binade_bounds:
  "0 < x \<Longrightarrow> pow2 (binade x) \<le> x \<and> x < pow2 (binade x + 1)"
  using binade_ge_one [of x] binade_lt_one [of x] by (cases "1 \<le> x") auto

lemma binade_le: "0 < x \<Longrightarrow> x < pow2 (k + 1) \<Longrightarrow> binade x \<le> k"
proof -
  assume a: "0 < x" "x < pow2 (k + 1)"
  then have "pow2 (binade x) < pow2 (k + 1)" using binade_bounds [of x] by simp
  then show ?thesis using pow2_less_D by fastforce
qed

lemma binade_ge: "pow2 k \<le> x \<Longrightarrow> k \<le> binade x"
proof -
  assume a: "pow2 k \<le> x"
  then have "0 < x" using pow2_pos [of k] by simp
  then have "pow2 k < pow2 (binade x + 1)" using binade_bounds [of x] a by simp
  then show ?thesis using pow2_less_D by fastforce
qed


lemma rne_le: "q < of_int N + 1 / 2 \<Longrightarrow> rne q \<le> N"
proof -
  assume a: "q < of_int N + 1 / 2"
  then have "q < of_int (N + 1)" by simp
  then have "\<lfloor>q\<rfloor> < N + 1" using floor_less_iff by blast
  then have fN: "\<lfloor>q\<rfloor> \<le> N" by simp
  show ?thesis
  proof (cases "\<lfloor>q\<rfloor> = N")
    case True
    then have "q - of_int \<lfloor>q\<rfloor> < 1 / 2" using a by simp
    then show ?thesis using True by (simp add: rne_def Let_def)
  next
    case False
    then have "\<lfloor>q\<rfloor> + 1 \<le> N" using fN by simp
    then show ?thesis by (simp add: rne_def Let_def)
  qed
qed

lemma rne_ge: "of_int N \<le> q \<Longrightarrow> N \<le> rne q"
proof -
  assume "of_int N \<le> q"
  then have "N \<le> \<lfloor>q\<rfloor>" by (simp add: le_floor_iff)
  then show ?thesis by (simp add: rne_def Let_def)
qed

lemma pow2_split:
  assumes "k \<le> j"
  shows "pow2 j = of_int (2 ^ nat (j - k)) * pow2 k"
proof -
  have "pow2 j = pow2 ((j - k) + k)" by simp
  also have "\<dots> = pow2 (j - k) * pow2 k" by (rule pow2_add)
  also have "pow2 (j - k) = 2 ^ nat (j - k)" using assms by (simp add: pow2_def)
  finally show ?thesis by simp
qed

lemma ulp64_pos: "0 < ulp64 x"
  by (simp add: ulp64_def pow2_pos)

lemma fl64_pos: "0 < x \<Longrightarrow> fl64 x = of_int (rne (x / ulp64 x)) * ulp64 x"
  by (simp add: fl64_def fl64_mag_def)

lemma ulp64_aligned:
  assumes "binade x - 52 \<le> j" "- 1074 \<le> j"
  shows "of_int M * pow2 j = of_int (M * 2 ^ nat (j - (max (binade x) (- 1022) - 52))) * ulp64 x"
proof -
  have "max (binade x) (- 1022) - 52 \<le> j" using assms by simp
  then show ?thesis
    using pow2_split [of "max (binade x) (- 1022) - 52" j] by (simp add: ulp64_def)
qed

lemma fl64_le_aligned:
  assumes "0 < x" "x \<le> of_int M * pow2 j" "binade x - 52 \<le> j" "- 1074 \<le> j"
  shows "fl64 x \<le> of_int M * pow2 j"
proof -
  define K where "K = M * 2 ^ nat (j - (max (binade x) (- 1022) - 52))"
  have c: "of_int M * pow2 j = of_int K * ulp64 x"
    unfolding K_def using assms(3,4) by (rule ulp64_aligned)
  have "x / ulp64 x \<le> of_int K"
    using assms(2) ulp64_pos [of x] unfolding c by (simp add: field_simps)
  then have "x / ulp64 x < of_int K + 1 / 2" by simp
  then have "rne (x / ulp64 x) \<le> K" by (rule rne_le)
  then have "(of_int (rne (x / ulp64 x)) :: rat) \<le> of_int K" by simp
  then have "of_int (rne (x / ulp64 x)) * ulp64 x \<le> of_int K * ulp64 x"
    using ulp64_pos [of x] by (simp add: mult_right_mono)
  then show ?thesis using assms(1) unfolding c by (simp add: fl64_pos)
qed

lemma fl64_ge_aligned:
  assumes "0 < x" "of_int M * pow2 j \<le> x" "binade x - 52 \<le> j" "- 1074 \<le> j"
  shows "of_int M * pow2 j \<le> fl64 x"
proof -
  define K where "K = M * 2 ^ nat (j - (max (binade x) (- 1022) - 52))"
  have c: "of_int M * pow2 j = of_int K * ulp64 x"
    unfolding K_def using assms(3,4) by (rule ulp64_aligned)
  have "of_int K \<le> x / ulp64 x"
    using assms(2) ulp64_pos [of x] unfolding c by (simp add: field_simps)
  then have "K \<le> rne (x / ulp64 x)" by (rule rne_ge)
  then have "(of_int K :: rat) \<le> of_int (rne (x / ulp64 x))" by simp
  then have "of_int K * ulp64 x \<le> of_int (rne (x / ulp64 x)) * ulp64 x"
    using ulp64_pos [of x] by (simp add: mult_right_mono)
  then show ?thesis using assms(1) unfolding c by (simp add: fl64_pos)
qed

lemma fl64_nonneg: "0 \<le> x \<Longrightarrow> 0 \<le> fl64 x"
proof (cases "x = 0")
  case True
  then show ?thesis by (simp add: fl64_def)
next
  case False
  assume "0 \<le> x"
  then have pos: "0 < x" using False by simp
  then have "(of_int 0 :: rat) \<le> x / ulp64 x" using ulp64_pos [of x] by simp
  then have "0 \<le> rne (x / ulp64 x)" by (rule rne_ge)
  then show ?thesis using pos ulp64_pos [of x] by (simp add: fl64_pos)
qed


lemma pow2_num: "pow2 (- 33) = 1 / 2 ^ 33" "pow2 (- 53) = 1 / 2 ^ 53" "pow2 (- 1) = 1 / 2"
  "pow2 0 = 1" "pow2 19 = 2 ^ 19" "pow2 20 = 2 ^ 20"
  by (simp_all add: pow2_def)

lemma binary64_below_one:
  assumes "is_binary64 r" "r < 1"
  shows "r \<le> 1 - 1 / 2 ^ 53"
proof (cases "r < 1 / 2")
  case True
  then show ?thesis by simp
next
  case False
  then have half: "pow2 (- 1) \<le> r" by (simp add: pow2_num)
  then have pos: "0 < r" using pow2_pos [of "- 1"] by simp
  have "r < pow2 (- 1 + 1)" using assms(2) by (simp add: pow2_num)
  then have "binade r \<le> - 1" using pos by (rule binade_le [rotated])
  moreover have "- 1 \<le> binade r" using half by (rule binade_ge)
  ultimately have b: "binade r = - 1" by simp
  have u: "ulp64 r = 1 / 2 ^ 53" by (simp add: ulp64_def b pow2_num)
  define n where "n = rne (r / ulp64 r)"
  have "fl64 r = r" using assms(1) by (simp add: is_binary64_def)
  then have r: "r = of_int n / 2 ^ 53" using pos by (simp add: fl64_pos n_def u)
  then have "(of_int n :: rat) < 2 ^ 53" using assms(2) by simp
  then have "(of_int n :: rat) < of_int (2 ^ 53)" by simp
  then have "n < 2 ^ 53" by (simp only: of_int_less_iff)
  then have "n \<le> 2 ^ 53 - 1" by simp
  then have "(of_int n :: rat) \<le> of_int (2 ^ 53 - 1)" by (simp only: of_int_le_iff)
  then have "(of_int n :: rat) \<le> 2 ^ 53 - 1" by simp
  then show ?thesis unfolding r by (simp add: field_simps)
qed

lemma product_bound:
  assumes "0 \<le> r" "r \<le> 1 - 1 / 2 ^ 53"
  shows "fl64 (r * 900000) \<le> 900000 - 1 / 2 ^ 33"
proof (cases "r * 900000 \<le> 0")
  case True
  then have "r = 0" using assms(1) by simp
  then show ?thesis by (simp add: fl64_def)
next
  case False
  define x where "x = r * 900000"
  have pos: "0 < x" using False by (simp add: x_def)
  have top: "x \<le> 900000 - 900000 / 2 ^ 53" using assms(2) by (simp add: x_def)
  then have "x < pow2 (19 + 1)" by (simp add: pow2_num)
  then have b19: "binade x \<le> 19" using pos by (rule binade_le [rotated])
  have "fl64 x \<le> 900000 - 1 / 2 ^ 33"
  proof (cases "x < 2 ^ 19")
    case True
    have c: "of_int (2 ^ 52) * pow2 (- 33) = (2 ^ 19 :: rat)" by (simp add: pow2_num)
    have "x \<le> of_int (2 ^ 52) * pow2 (- 33)" using True unfolding c by simp
    then have "fl64 x \<le> of_int (2 ^ 52) * pow2 (- 33)"
      using pos b19 by (intro fl64_le_aligned) simp_all
    then show ?thesis unfolding c by simp
  next
    case False
    then have "pow2 19 \<le> x" by (simp add: pow2_num)
    then have "19 \<le> binade x" by (rule binade_ge)
    then have b: "binade x = 19" using b19 by simp
    have u: "ulp64 x = 1 / 2 ^ 33" by (simp add: ulp64_def b pow2_num)
    have "x / ulp64 x < of_int (900000 * 2 ^ 33 - 1) + 1 / 2"
      using top by (simp add: u)
    then have "rne (x / ulp64 x) \<le> 900000 * 2 ^ 33 - 1" by (rule rne_le)
    then have "(of_int (rne (x / ulp64 x)) :: rat) \<le> of_int (900000 * 2 ^ 33 - 1)"
      by (simp only: of_int_le_iff)
    then have "of_int (rne (x / ulp64 x)) * ulp64 x \<le> of_int (900000 * 2 ^ 33 - 1) * ulp64 x"
      using ulp64_pos [of x] by (simp add: mult_right_mono)
    then show ?thesis using pos by (simp add: fl64_pos u)
  qed
  then show ?thesis by (simp add: x_def)
qed

lemma sum_bounds:
  assumes "0 \<le> p" "p \<le> 900000 - 1 / 2 ^ 33"
  shows "100000 \<le> fl64 (100000 + p) \<and> fl64 (100000 + p) \<le> 1000000 - 1 / 2 ^ 33"
proof -
  define s where "s = 100000 + p"
  have pos: "0 < s" using assms(1) by (simp add: s_def)
  have lo: "100000 \<le> s" using assms(1) by (simp add: s_def)
  have hi: "s \<le> 1000000 - 1 / 2 ^ 33" using assms(2) by (simp add: s_def)
  then have "s < pow2 (19 + 1)" by (simp add: pow2_num)
  then have b19: "binade s \<le> 19" using pos by (rule binade_le [rotated])
  have c1: "of_int (1000000 * 2 ^ 33 - 1) * pow2 (- 33) = (1000000 - 1 / 2 ^ 33 :: rat)"
    by (simp add: pow2_num)
  have c2: "of_int (100000 * 2 ^ 33) * pow2 (- 33) = (100000 :: rat)"
    by (simp add: pow2_num)
  have "s \<le> of_int (1000000 * 2 ^ 33 - 1) * pow2 (- 33)" using hi unfolding c1 .
  then have up: "fl64 s \<le> of_int (1000000 * 2 ^ 33 - 1) * pow2 (- 33)"
    using pos b19 by (intro fl64_le_aligned) simp_all
  have "of_int (100000 * 2 ^ 33) * pow2 (- 33) \<le> s" using lo unfolding c2 .
  then have dn: "of_int (100000 * 2 ^ 33) * pow2 (- 33) \<le> fl64 s"
    using pos b19 by (intro fl64_ge_aligned) simp_all
  show ?thesis using up dn unfolding c1 c2 s_def by simp
qed

lemma otp_number_range:
  assumes "is_binary64 r" "0 \<le> r" "r < 1"
  shows "100000 \<le> otp_number r \<and> otp_number r \<le> 999999"
proof -
  have r0: "0 \<le> r" using assms(2) .
  then have x0: "0 \<le> r * 900000" by simp
  have r1: "r \<le> 1 - 1 / 2 ^ 53" using assms(1,3) by (rule binary64_below_one)
  have p: "fl64 (r * 900000) \<le> 900000 - 1 / 2 ^ 33" using r0 r1 by (rule product_bound)
  have s: "100000 \<le> fl64 (100000 + fl64 (r * 900000))"
    "fl64 (100000 + fl64 (r * 900000)) \<le> 1000000 - 1 / 2 ^ 33"
    using sum_bounds [OF fl64_nonneg [OF x0] p] by simp_all
  have "(of_int 100000 :: rat) \<le> fl64 (100000 + fl64 (r * 900000))" using s(1) by simp
  then have lo: "100000 \<le> otp_number r" unfolding otp_number_def by (simp only: le_floor_iff)
  have "fl64 (100000 + fl64 (r * 900000)) < of_int 1000000" using s(2) by simp
  then have "otp_number r < 1000000" unfolding otp_number_def by (simp only: floor_less_iff)
  then show ?thesis using lo by simp
qed

section \<open>Decimal digits\<close>

lemma digit_char_in: "d < 10 \<Longrightarrow> digit_char d \<in> set ''0123456789''"
  unfolding digit_char_def by (rule nth_mem) simp

lemma digit_value_char: "d < 10 \<Longrightarrow> digit_value (digit_char d) = d"
proof -
  assume "d < 10"
  then have "d \<in> {0, 1, 2, 3, 4, 5, 6, 7, 8, 9}" by auto
  then show ?thesis by (auto simp: digit_char_def digit_value_def)
qed

lemma digits10_small: "n < 10 \<Longrightarrow> digits10 n = [digit_char n]"
  by (subst digits10.simps) simp

lemma digits10_large: "\<not> n < 10 \<Longrightarrow> digits10 n = digits10 (n div 10) @ [digit_char (n mod 10)]"
  by (subst digits10.simps) simp

lemma digits10_set: "set (digits10 n) \<subseteq> set ''0123456789''"
proof (induction n rule: digits10.induct)
  case (1 n)
  show ?case
  proof (cases "n < 10")
    case True
    then show ?thesis using digit_char_in [of n] by (simp only: digits10_small) simp
  next
    case False
    have "n mod 10 < 10" by simp
    then have "digit_char (n mod 10) \<in> set ''0123456789''" by (rule digit_char_in)
    then show ?thesis using "1.IH" [OF False] by (simp only: digits10_large [OF False]) simp
  qed
qed

lemma decimal_value_snoc: "decimal_value (s @ [c]) = 10 * decimal_value s + digit_value c"
  by (simp add: decimal_value_def)

lemma digits10_value: "decimal_value (digits10 n) = n"
proof (induction n rule: digits10.induct)
  case (1 n)
  show ?case
  proof (cases "n < 10")
    case True
    then show ?thesis by (simp add: digits10_small decimal_value_def digit_value_char)
  next
    case False
    have "n mod 10 < 10" by simp
    then have "digit_value (digit_char (n mod 10)) = n mod 10" by (rule digit_value_char)
    then show ?thesis
      using "1.IH" [OF False] by (simp add: digits10_large [OF False] decimal_value_snoc)
  qed
qed

lemma digits10_length: "10 ^ k \<le> n \<Longrightarrow> n < 10 ^ Suc k \<Longrightarrow> length (digits10 n) = Suc k"
proof (induction k arbitrary: n)
  case 0
  then show ?case by (simp add: digits10_small)
next
  case (Suc k)
  have big: "\<not> n < 10"
  proof -
    have "(1::nat) \<le> 10 ^ k" by simp
    then have "(10::nat) \<le> 10 * 10 ^ k" by simp
    moreover have "10 * 10 ^ k \<le> n" using Suc.prems(1) by simp
    ultimately show ?thesis by linarith
  qed
  have lo: "10 ^ k \<le> n div 10" using Suc.prems(1) by (simp add: less_eq_div_iff_mult_less_eq)
  have hi: "n div 10 < 10 ^ Suc k" using Suc.prems(2) by (simp add: div_less_iff_less_mult)
  show ?case using Suc.IH [OF lo hi] by (simp add: digits10_large [OF big])
qed

lemma generate_otp_six_digit:
  assumes "is_binary64 r" "0 \<le> r" "r < 1"
  shows "six_digit (generate_otp r)"
proof -
  define n where "n = nat (otp_number r)"
  have rng: "100000 \<le> otp_number r" "otp_number r \<le> 999999"
    using otp_number_range [OF assms] by simp_all
  have g: "generate_otp r = digits10 n"
    using rng(1) by (simp add: generate_otp_def toString_def n_def)
  have n: "10 ^ 5 \<le> n" "n < 10 ^ Suc 5" "100000 \<le> n" "n \<le> 999999"
    using rng by (simp_all add: n_def)
  have "length (digits10 n) = Suc 5" using n(1,2) by (rule digits10_length)
  then show ?thesis
    using digits10_set [of n] n(3,4) by (simp only: six_digit_def g digits10_value) simp
qed

section \<open>The codes the handlers issue\<close>

lemma register_issues: "issues_only (generate_otp (random en)) w (fst (register en w b))"
  by (auto simp: issues_only_def register_def insert_user_def new_row_def sendEmail_def Let_def
      split: option.splits)

lemma login_issues: "issues_only (generate_otp (random en)) w (fst (login en w e))"
  by (auto simp: issues_only_def login_def update_email_def sendEmail_def Let_def
      split: sum.splits)

lemma resend_otp_issues: "issues_only (generate_otp (random en)) w (fst (resend_otp en w eo))"
  by (auto simp: issues_only_def resend_otp_def update_email_def sendEmail_def Let_def
      split: sum.splits option.splits)

lemma binary64_half: "is_binary64 (1 / 2)"
  by (simp add: is_binary64_def fl_eval)

lemma rne_ge_half: "of_int N - 1 / 2 < q \<Longrightarrow> N \<le> rne q"
proof -
  assume a: "of_int N - 1 / 2 < q"
  then have "of_int (N - 1) \<le> q" by simp
  then have fN: "N - 1 \<le> \<lfloor>q\<rfloor>" using le_floor_iff by blast
  show ?thesis
  proof (cases "\<lfloor>q\<rfloor> = N - 1")
    case True
    then have "1 / 2 < q - of_int \<lfloor>q\<rfloor>" using a by simp
    then show ?thesis using True by (simp add: rne_def Let_def)
  next
    case False
    then have "N \<le> \<lfloor>q\<rfloor>" using fN by simp
    then show ?thesis by (simp add: rne_def Let_def)
  qed
qed

lemma rne_eq: "of_int N - 1 / 2 < q \<Longrightarrow> q < of_int N + 1 / 2 \<Longrightarrow> rne q = N"
  using rne_le [of q N] rne_ge_half [of N q] by simp

lemma fl64_eq:
  assumes "pow2 k \<le> x" "x < pow2 (k + 1)" "- 1022 \<le> k"
    "of_int N - 1 / 2 < x / pow2 (k - 52)" "x / pow2 (k - 52) < of_int N + 1 / 2"
  shows "fl64 x = of_int N * pow2 (k - 52)"
proof -
  have pos: "0 < x" using assms(1) pow2_pos [of k] by simp
  have "binade x \<le> k" using pos assms(2) by (rule binade_le)
  moreover have "k \<le> binade x" using assms(1) by (rule binade_ge)
  ultimately have u: "ulp64 x = pow2 (k - 52)" using assms(3) by (simp add: ulp64_def)
  have "rne (x / pow2 (k - 52)) = N" using assms(4,5) by (rule rne_eq)
  then show ?thesis using pos by (simp add: fl64_pos u)
qed

lemma binary64_top: "is_binary64 top_draw"
proof -
  have "fl64 top_draw = of_int (2 ^ 53 - 1) * pow2 (- 1 - 52)"
    by (rule fl64_eq) (simp_all add: top_draw_def pow2_num)
  then show ?thesis by (simp add: is_binary64_def top_draw_def pow2_num)
qed

lemma otp_number_top: "otp_number top_draw = 999999"
proof -
  have p: "fl64 (top_draw * 900000) = of_int 7730941132799999 * pow2 (19 - 52)"
    by (rule fl64_eq) (simp_all add: top_draw_def pow2_num)
  have s: "fl64 (100000 + of_int 7730941132799999 * pow2 (19 - 52))
             = of_int 8589934591999999 * pow2 (19 - 52)"
    by (rule fl64_eq) (simp_all add: pow2_num)
  have "\<lfloor>of_int 8589934591999999 * pow2 (19 - 52)\<rfloor> = 999999"
    by (rule floor_unique) (simp_all add: pow2_num)
  then show ?thesis by (simp only: otp_number_def p s)
qed

lemma generate_otp_top: "generate_otp top_draw = ''999999''"
  by (simp add: generate_otp_def otp_number_top toString_def digits10.simps digit_char_def)
section \<open>The claims\<close>

text \<open>
  Claim C1. \<^verbatim>\<open>POST /verify-login\<close> looks only at the email and the one-time code: for
  every account, whatever its \<open>email_verified\<close> and \<open>approved_by_admin\<close> flags are, a
  supplied code equal to the stored one gets the answer 200 with the account's identity
  fields and a token signed over them. The collaborators are taken to work: the
  repository answers the read, \<^verbatim>\<open>JWT_SECRET\<close> is set to a non-empty text, and the
  notification goes out.
\<close>

theorem verify_login_needs_only_otp:
  assumes "read_ok en" "mail_ok en" "unique_emails w" "account w e = Some u" "otp u = Some c"
    "jwt_secret en = Some k" "k \<noteq> []"
  shows "snd (verify_login en w e c) =
           Reply 200 (LoginData (user_id u) (name u) e (user_type u)
             \<lparr>claim_id = user_id u, claim_email = e, claim_user_type = user_type u,
              iat = clock en 0 div 1000, exp = clock en 0 div 1000 + 3600, signed_with = k\<rparr>)"
proof -
  have "email u = e" using assms(4) account_member by blast
  moreover have "select_single en (users w) (\<lambda>v. email v = e \<and> otp v = Some c) = Inr u"
    using filter_by_email_otp [OF assms(3,4), of c] assms(1,5) select_single_one by simp
  ultimately show ?thesis
    using assms(2,6,7)
    by (simp add: verify_login_def sendEmail_def jwt_sign_def one_hour_def Let_def)
qed

theorem verify_login_needs_only_otp_witness:
  "\<not> email_verified alice \<and> \<not> approved_by_admin alice \<and>
   snd (verify_login env0 (world_of [alice]) ''a@x.com'' ''123456'') =
     Reply 200 (LoginData ''id-1'' (Some ''Alice'') ''a@x.com'' (Some ''intern'')
       \<lparr>claim_id = ''id-1'', claim_email = ''a@x.com'', claim_user_type = Some ''intern'',
        iat = 1700000000, exp = 1700003600, signed_with = ''secret''\<rparr>)"
  using verify_login_needs_only_otp [of env0 "world_of [alice]" "''a@x.com''" alice "''123456''"
      "''secret''"]
  by (simp add: fixture_defs)

text \<open>
  Claim C2 as stated asks for a separate not-found failure. With no account at all the
  handler answers exactly what it answers to a wrong code.
\<close>

theorem verify_otp_not_found_counterexample:
  "verify_otp env0 (world_of []) ''a@x.com'' ''123456'' =
     (world_of [], Reply 400 (ErrorText ''Invalid OTP'')) \<and>
   verify_otp env0 (world_of [alice]) ''a@x.com'' ''000000'' =
     (world_of [alice], Reply 400 (ErrorText ''Invalid OTP''))"
  by (simp add: verify_otp_def select_single_def fixture_defs)

text \<open>
  Claim C2, as amended. \<^verbatim>\<open>POST /verify-otp\<close> has one failure answer, 400
  \<^verbatim>\<open>Invalid OTP\<close>: it is given when no account has the email and when the account's
  stored code differs from the supplied one (compared as raw strings), with nothing
  changed; the two causes get the same answer. A supplied code equal to the stored one
  succeeds.
\<close>

theorem verify_otp_one_failure:
  assumes "read_ok en" "unique_emails w"
  shows "case account w e of
           None \<Rightarrow> verify_otp en w e c = (w, Reply 400 (ErrorText ''Invalid OTP''))
         | Some u \<Rightarrow>
             if otp u = Some c
             then snd (verify_otp en w e c) = Reply 200 (MessageText ''Email verified successfully.'')
             else verify_otp en w e c = (w, Reply 400 (ErrorText ''Invalid OTP''))"
proof (cases "account w e")
  case None
  then have "filter (\<lambda>v. email v = e \<and> otp v = Some c) (users w) = []"
    by (rule no_account_filter)
  then show ?thesis using None assms(1) by (simp add: verify_otp_def select_single_def)
next
  case (Some u)
  have "filter (\<lambda>v. email v = e \<and> otp v = Some c) (users w) = (if otp u = Some c then [u] else [])"
    using filter_by_email_otp [OF assms(2) Some] .
  then show ?thesis using Some assms(1) by (simp add: verify_otp_def select_single_def)
qed

theorem verify_otp_one_failure_witness:
  "verify_otp env0 (world_of []) ''a@x.com'' ''123456'' =
     (world_of [], Reply 400 (ErrorText ''Invalid OTP'')) \<and>
   verify_otp env0 (world_of [alice]) ''a@x.com'' ''000000'' =
     (world_of [alice], Reply 400 (ErrorText ''Invalid OTP'')) \<and>
   snd (verify_otp env0 (world_of [alice]) ''a@x.com'' ''123456'') =
     Reply 200 (MessageText ''Email verified successfully.'')"
  using verify_otp_one_failure [of env0 "world_of []" "''a@x.com''" "''123456''"]
    verify_otp_one_failure [of env0 "world_of [alice]" "''a@x.com''" "''000000''"]
    verify_otp_one_failure [of env0 "world_of [alice]" "''a@x.com''" "''123456''"]
  by (simp add: fixture_defs)

text \<open>
  Claim C3. \<^verbatim>\<open>POST /login\<close> answers 400 \<^verbatim>\<open>User not found\<close> when no account has the
  email, 403 \<^verbatim>\<open>Email not verified\<close> when the account's \<open>email_verified\<close> is false
  (whatever \<open>approved_by_admin\<close> is, so this check wins when both flags are false), and
  403 \<^verbatim>\<open>Not approved by admin\<close> when the email is verified and \<open>approved_by_admin\<close> is
  false. Nothing is changed in any of the three cases.
\<close>

theorem login_failures:
  "(account w e = None \<longrightarrow> login en w e = (w, Reply 400 (ErrorText ''User not found''))) \<and>
   (\<forall>u. read_ok en \<and> unique_emails w \<and> account w e = Some u \<and> \<not> email_verified u \<longrightarrow>
      login en w e = (w, Reply 403 (ErrorText ''Email not verified''))) \<and>
   (\<forall>u. read_ok en \<and> unique_emails w \<and> account w e = Some u \<and> email_verified u \<and>
        \<not> approved_by_admin u \<longrightarrow>
      login en w e = (w, Reply 403 (ErrorText ''Not approved by admin'')))"
proof (intro conjI allI impI)
  assume "account w e = None"
  then have "filter (\<lambda>v. email v = e \<and> True) (users w) = []"
    by (rule no_account_filter)
  then show "login en w e = (w, Reply 400 (ErrorText ''User not found''))"
    by (simp add: login_def select_single_def)
next
  fix u
  assume a: "read_ok en \<and> unique_emails w \<and> account w e = Some u \<and> \<not> email_verified u"
  then have "select_single en (users w) (\<lambda>v. email v = e) = Inr u"
    using single_by_email by blast
  then show "login en w e = (w, Reply 403 (ErrorText ''Email not verified''))"
    using a by (simp add: login_def)
next
  fix u
  assume a: "read_ok en \<and> unique_emails w \<and> account w e = Some u \<and> email_verified u \<and>
        \<not> approved_by_admin u"
  then have "select_single en (users w) (\<lambda>v. email v = e) = Inr u"
    using single_by_email by blast
  then show "login en w e = (w, Reply 403 (ErrorText ''Not approved by admin''))"
    using a by (simp add: login_def)
qed

theorem login_failures_witness:
  "login env0 (world_of []) ''a@x.com'' = (world_of [], Reply 400 (ErrorText ''User not found'')) \<and>
   login env0 (world_of [alice]) ''a@x.com'' =
     (world_of [alice], Reply 403 (ErrorText ''Email not verified'')) \<and>
   login env0 (world_of [alice\<lparr>email_verified := True\<rparr>]) ''a@x.com'' =
     (world_of [alice\<lparr>email_verified := True\<rparr>], Reply 403 (ErrorText ''Not approved by admin''))"
  using login_failures [of "world_of []" "''a@x.com''" env0]
    login_failures [of "world_of [alice]" "''a@x.com''" env0]
    login_failures [of "world_of [alice\<lparr>email_verified := True\<rparr>]" "''a@x.com''" env0]
  by (simp add: fixture_defs)

text \<open>
  Claim C4. A successful \<^verbatim>\<open>POST /verify-otp\<close> is to set \<open>email_verified\<close> and
  \<open>otp_verified\<close> of the account. The handler does not look at the result of its update:
  when the repository refuses the write, the request with the right code is still
  answered 200 \<^verbatim>\<open>Email verified successfully.\<close> and both flags of the account stay false.
\<close>

theorem verify_otp_ignores_failed_update:
  "verify_otp env_write_down (world_of [alice]) ''a@x.com'' ''123456'' =
     (world_of [alice], Reply 200 (MessageText ''Email verified successfully.'')) \<and>
   otp alice = Some ''123456'' \<and> \<not> email_verified alice \<and> \<not> otp_verified alice"
  by (simp add: verify_otp_def select_single_def update_email_def env_write_down_def fixture_defs)

text \<open>
  Claim C5. A successful \<^verbatim>\<open>POST /verify-login\<close> is to set \<open>last_login_at\<close> and to put a
  \<^verbatim>\<open>login\<close> record at the end of \<open>login_records\<close>. When the repository refuses the
  write, the request is still answered 200 with the identity fields and the token, and
  the account is as it was: no \<open>last_login_at\<close>, no record.
\<close>

theorem verify_login_ignores_failed_update:
  "verify_login env_write_down (world_of [alice]) ''a@x.com'' ''123456'' =
     (\<lparr>users = [alice], outbox = [login_mail]\<rparr>,
      Reply 200 (LoginData ''id-1'' (Some ''Alice'') ''a@x.com'' (Some ''intern'') alice_token)) \<and>
   last_login_at alice = None \<and> login_records alice = []"
  by (simp add: verify_login_def select_single_def update_email_def sendEmail_def jwt_sign_def
      one_hour_def login_mail_def alice_token_def env_write_down_def fixture_defs)

text \<open>
  Claim C6. Every successful \<^verbatim>\<open>POST /verify-login\<close> and \<^verbatim>\<open>POST /logout\<close> is to append
  one record to \<open>login_records\<close>. When the repository refuses the write, both requests
  are still answered 200 and the account keeps the two records it had: nothing is
  appended.
\<close>

theorem login_records_not_appended:
  "verify_login env_write_down (world_of [veteran]) ''a@x.com'' ''123456'' =
     (\<lparr>users = [veteran], outbox = [login_mail]\<rparr>,
      Reply 200 (LoginData ''id-1'' (Some ''Alice'') ''a@x.com'' (Some ''intern'') alice_token)) \<and>
   logout env_write_down (world_of [veteran]) ''a@x.com'' =
     (\<lparr>users = [veteran], outbox = [logout_mail]\<rparr>,
      Reply 200 (MessageText ''Logged out successfully.'')) \<and>
   length (login_records veteran) = 2"
  by (simp add: verify_login_def logout_def select_single_def update_email_def sendEmail_def
      jwt_sign_def one_hour_def login_mail_def logout_mail_def alice_token_def veteran_def
      env_write_down_def fixture_defs)







text \<open>
  Claim C9. In \<^verbatim>\<open>POST /resend-otp\<close>, when the fresh code has been written and the send
  then fails, the answer is 500 \<^verbatim>\<open>Failed to send OTP email\<close> and the write stays: the
  account's stored code is the fresh one. That answer is given in no other situation: it
  implies that the read and the write succeeded and the send failed.
\<close>

theorem resend_otp_send_failure:
  "(unique_emails w \<and> account w e = Some u \<and> e \<noteq> [] \<and> \<not> otp_verified u \<and>
    read_ok en \<and> write_ok en \<and> \<not> mail_ok en \<longrightarrow>
      snd (resend_otp en w (Some e)) = Reply 500 (ErrorText ''Failed to send OTP email'') \<and>
      account (fst (resend_otp en w (Some e))) e = Some (u\<lparr>otp := Some (generate_otp (random en))\<rparr>) \<and>
      outbox (fst (resend_otp en w (Some e))) = outbox w) \<and>
   (snd (resend_otp en w eo) = Reply 500 (ErrorText ''Failed to send OTP email'') \<longrightarrow>
      read_ok en \<and> write_ok en \<and> \<not> mail_ok en)"
proof (rule conjI; rule impI)
  assume a: "unique_emails w \<and> account w e = Some u \<and> e \<noteq> [] \<and> \<not> otp_verified u \<and>
    read_ok en \<and> write_ok en \<and> \<not> mail_ok en"
  then have sel: "select_single en (users w) (\<lambda>v. email v = e) = Inr u"
    using single_by_email by blast
  have run: "resend_otp en w (Some e) =
      (w\<lparr>users := map (\<lambda>v. if email v = e then v\<lparr>otp := Some (generate_otp (random en))\<rparr> else v)
            (users w)\<rparr>, Reply 500 (ErrorText ''Failed to send OTP email''))"
    using a sel by (simp add: resend_otp_def update_email_def sendEmail_def Let_def)
  have r1: "snd (resend_otp en w (Some e)) = Reply 500 (ErrorText ''Failed to send OTP email'')"
    by (simp add: run)
  have acc: "account (w\<lparr>users := map (\<lambda>v. if email v = e
                 then v\<lparr>otp := Some (generate_otp (random en))\<rparr> else v) (users w)\<rparr>) e
               = map_option (\<lambda>v. v\<lparr>otp := Some (generate_otp (random en))\<rparr>) (account w e)"
    using account_after_update [where f = "\<lambda>v. v\<lparr>otp := Some (generate_otp (random en))\<rparr>"
        and w = w and e = e and e' = e] by simp
  have r2: "account (fst (resend_otp en w (Some e))) e = Some (u\<lparr>otp := Some (generate_otp (random en))\<rparr>)"
    using a by (simp only: run fst_conv acc) simp
  have r3: "outbox (fst (resend_otp en w (Some e))) = outbox w"
    by (simp add: run)
  show "snd (resend_otp en w (Some e)) = Reply 500 (ErrorText ''Failed to send OTP email'') \<and>
      account (fst (resend_otp en w (Some e))) e = Some (u\<lparr>otp := Some (generate_otp (random en))\<rparr>) \<and>
      outbox (fst (resend_otp en w (Some e))) = outbox w"
    using r1 r2 r3 by blast
next
  assume r: "snd (resend_otp en w eo) = Reply 500 (ErrorText ''Failed to send OTP email'')"
  show "read_ok en \<and> write_ok en \<and> \<not> mail_ok en"
  proof (cases eo)
    case None
    then show ?thesis using r by (simp add: resend_otp_def)
  next
    case (Some e')
    show ?thesis
    proof (cases "e' = []")
      case True
      then show ?thesis using r Some by (simp add: resend_otp_def)
    next
      case ne: False
      show ?thesis
      proof (cases "select_single en (users w) (\<lambda>v. email v = e')")
        case (Inl err)
        then show ?thesis using r Some ne by (simp add: resend_otp_def)
      next
        case (Inr usr)
        have rd: "read_ok en" using select_single_Inr [OF Inr] by simp
        have nv: "\<not> otp_verified usr"
          using r Some ne Inr by (auto simp: resend_otp_def)
        have wr: "write_ok en"
        proof (rule ccontr)
          assume "\<not> write_ok en"
          then show False
            using r Some ne Inr nv by (simp add: resend_otp_def update_email_def Let_def)
        qed
        have "\<not> mail_ok en"
        proof
          assume "mail_ok en"
          then show False
            using r Some ne Inr nv wr
            by (simp add: resend_otp_def update_email_def sendEmail_def Let_def)
        qed
        then show ?thesis using rd wr by simp
      qed
    qed
  qed
qed

theorem resend_otp_send_failure_witness:
  "resend_otp env_mail_down (world_of [alice]) (Some ''a@x.com'') =
     (world_of [alice\<lparr>otp := Some ''550000''\<rparr>], Reply 500 (ErrorText ''Failed to send OTP email''))"
proof -
  have run: "resend_otp env_mail_down (world_of [alice]) (Some ''a@x.com'') =
     (world_of [alice\<lparr>otp := Some ''550000''\<rparr>], Reply 500 (ErrorText ''Failed to send OTP email''))"
    by (simp add: resend_otp_def select_single_def update_email_def sendEmail_def Let_def
        env_mail_down_def generate_otp_half fixture_defs)
  show ?thesis
    using resend_otp_send_failure [of "world_of [alice]" "''a@x.com''" alice env_mail_down
        "Some ''a@x.com''"] run
    by (simp add: env_mail_down_def generate_otp_half fixture_defs)
qed

text \<open>
  Claim C10. Every code the service generates is a string of six decimal digits that
  reads as a number from 100000 to 999999, whatever binary64 number from 0 up to but not
  including 1 the random source returns; and \<^verbatim>\<open>POST /register\<close>, \<^verbatim>\<open>POST /login\<close> and \<^verbatim>\<open>POST /resend-otp\<close> store
  and send no other code than that one.
\<close>

theorem generated_otp_six_digits:
  assumes "is_binary64 (random en)" "0 \<le> random en" "random en < 1"
  shows "six_digit (generate_otp (random en)) \<and>
         issues_only (generate_otp (random en)) w (fst (register en w b)) \<and>
         issues_only (generate_otp (random en)) w (fst (login en w e)) \<and>
         issues_only (generate_otp (random en)) w (fst (resend_otp en w eo))"
  using generate_otp_six_digit [OF assms] register_issues login_issues resend_otp_issues
  by blast

theorem generated_otp_six_digits_witness:
  "is_binary64 (random env0) \<and> 0 \<le> random env0 \<and> random env0 < 1 \<and>
   generate_otp (random env0) = ''550000'' \<and> six_digit ''550000'' \<and>
   is_binary64 (random env_top) \<and> 0 \<le> random env_top \<and> random env_top < 1 \<and>
   generate_otp (random env_top) = ''999999'' \<and> six_digit ''999999'' \<and>
   users (fst (register env0 (world_of []) malformed_body)) = [bob] \<and>
   otp bob = Some ''550000''"
proof -
  have h: "is_binary64 (random env0)" "0 \<le> random env0" "random env0 < 1"
    "is_binary64 (random env_top)"
    by (simp_all add: env0_def env_top_def binary64_half binary64_top)
  have h4: "0 \<le> random env_top" "random env_top < 1"
    by (simp_all add: env0_def env_top_def top_draw_def)
  have g: "generate_otp (random env0) = ''550000''" "generate_otp (random env_top) = ''999999''"
    by (simp_all add: env0_def env_top_def generate_otp_half generate_otp_top)
  have r: "users (fst (register env0 (world_of []) malformed_body)) = [bob]"
    by (simp add: register_def insert_user_def new_row_def sendEmail_def malformed_body_def
        env0_def world_of_def bob_def generate_otp_half Let_def)
  show ?thesis
    using generated_otp_six_digits [OF h(1,2,3), of "world_of []" malformed_body "''a@x.com''" None]
      generated_otp_six_digits [OF h(4) h4, of "world_of []" malformed_body "''a@x.com''" None]
      h h4 g r
    by (simp add: bob_def)
qed


end
